theory Spec2Isabelle
  imports Complex_Main "HOL-Library.Multiset"
begin

section \<open>Errors, floats and the notebook's globals\<close>

text \<open>
  The notebook is Python over pandas and scikit-learn 0.19.0.  Every \<open>raise\<close> of the
  source, and every exception of a library call the source makes, is a value of
  \<open>error\<close>; a function that may raise returns \<open>error + 'a\<close>.
\<close>

datatype error = ValueError string | NameError string | NotFittedError string

text \<open>A Python float is a real number or NaN (the mean of an empty Series).\<close>

datatype pyfloat = Float real | NaN

text \<open>
  Python's builtin \<open>max(a, b)\<close> returns \<open>b\<close> when \<open>b > a\<close> and \<open>a\<close> otherwise;
  every comparison with NaN is false.
\<close>

fun py_gt :: "pyfloat \<Rightarrow> pyfloat \<Rightarrow> bool" where
  "py_gt (Float a) (Float b) = (a > b)"
| "py_gt _ _ = False"

definition py_max :: "pyfloat \<Rightarrow> pyfloat \<Rightarrow> pyfloat" where
  "py_max a b = (if py_gt b a then b else a)"

fun py_rsub :: "real \<Rightarrow> pyfloat \<Rightarrow> pyfloat" where
  "py_rsub c (Float a) = Float (c - a)"
| "py_rsub c NaN = NaN"

text \<open>
  The globals of the cell "Define Globals".  A Python function reads a global when it
  is called, so the functions below take the globals as their first argument.
\<close>

record globals =
  hold_out_percent :: real
  CLASSIFICATION_TYPE :: string

definition notebook_globals :: globals where
  "notebook_globals = \<lparr>hold_out_percent = 0.2, CLASSIFICATION_TYPE = ''Binary''\<rparr>"

section \<open>Null accuracy\<close>

text \<open>
  A label Series is the list of its values.  The label column is integer coded, so
  \<open>astype(int)\<close> leaves the values as they are; \<open>mean()\<close> of an empty Series is NaN.
\<close>

type_synonym series = "int list"

definition astype_int :: "series \<Rightarrow> int list" where
  "astype_int labels = labels"

definition mean :: "int list \<Rightarrow> pyfloat" where
  "mean xs = (if xs = [] then NaN else Float (real_of_int (sum_list xs) / real (length xs)))"

text \<open>
  \<open>labels.value_counts().head(1).item()\<close>: the count of the most frequent value;
  \<open>item()\<close> raises on the empty Series.
\<close>

definition value_counts_head :: "series \<Rightarrow> error + nat" where
  "value_counts_head labels =
     (if labels = [] then Inl (ValueError ''can only convert an array of size 1 to a Python scalar'')
      else Inr (fold max (map (count_list labels) labels) 0))"

text \<open>The three branches of \<open>null_accuracy_score\<close>, in the order of its \<open>if/elif/else\<close>.\<close>

datatype branch = IfBranch | ElifBranch | ElseBranch

definition null_accuracy_branch :: "globals \<Rightarrow> string \<Rightarrow> branch" where
  "null_accuracy_branch g classification_type =
     (if classification_type = CLASSIFICATION_TYPE g then IfBranch
      else if classification_type = CLASSIFICATION_TYPE g then ElifBranch
      else ElseBranch)"

definition bad_input :: "string \<Rightarrow> string" where
  "bad_input classification_type =
     ''Bad input '' @ classification_type @ ''. Must specify either '' @
     [CHR 0x27] @ ''Binary'' @ [CHR 0x27] @ '' or '' @ [CHR 0x27] @ ''Multiple'' @ [CHR 0x27] @ ''.''"

definition null_accuracy_score :: "globals \<Rightarrow> series \<Rightarrow> string \<Rightarrow> error + pyfloat" where
  "null_accuracy_score g labels classification_type =
     (case null_accuracy_branch g classification_type of
        IfBranch \<Rightarrow>
          Inr (py_max (mean (astype_int labels)) (py_rsub 1 (mean (astype_int labels))))
      | ElifBranch \<Rightarrow>
          (case value_counts_head labels of
             Inl e \<Rightarrow> Inl e
           | Inr c \<Rightarrow> Inr (Float (real c / real (length labels))))
      | ElseBranch \<Rightarrow> Inl (ValueError (bad_input classification_type)))"

text \<open>The fraction of records in the positive class.\<close>

definition positive_fraction :: "series \<Rightarrow> real" where
  "positive_fraction labels = real (count_list labels 1) / real (length labels)"

section \<open>Random numbers and the dataset partitioner\<close>

text \<open>
  Modelled from the spec: the generator behind numpy's \<open>RandomState\<close>, which the
  notebook only reaches through \<open>random_state=42\<close>.  \<open>RandomState seed\<close> is the
  state of a generator created from a seed, \<open>permutation g n\<close> is
  \<open>g.permutation(n)\<close> together with the state it leaves behind.  The spec asks for
  "a uniform random permutation governed by seed"; what the properties need of it
  is \<open>valid_rng\<close>: every draw is a permutation of \<open>0, ..., n - 1\<close>.
\<close>

record 'g random_impl =
  RandomState :: "nat \<Rightarrow> 'g"
  permutation :: "'g \<Rightarrow> nat \<Rightarrow> nat list \<times> 'g"

definition valid_rng :: "'g random_impl \<Rightarrow> bool" where
  "valid_rng R = (\<forall>g n. distinct (fst (permutation R g n)) \<and> set (fst (permutation R g n)) = {..<n})"

text \<open>
  Modelled from the spec: how a library call with a \<open>random_state\<close> argument gets its
  permutation ("same seed, identical split across runs").  An integer makes a fresh
  generator from that seed and leaves the process-wide generator \<open>G\<close> alone;
  \<open>None\<close> draws from the process-wide generator and advances it.
\<close>

definition draw_permutation :: "'g random_impl \<Rightarrow> 'g \<Rightarrow> nat option \<Rightarrow> nat \<Rightarrow> nat list \<times> 'g" where
  "draw_permutation R G random_state n =
     (case random_state of
        None \<Rightarrow> permutation R G n
      | Some seed \<Rightarrow> (fst (permutation R (RandomState R seed) n), G))"

text \<open>
  Modelled from the spec: the library's positional selection of records from a frame,
  which raises on a position outside the frame.
\<close>

definition safe_indexing :: "'a list \<Rightarrow> nat list \<Rightarrow> error + 'a list" where
  "safe_indexing a inds =
     (if list_all (\<lambda>i. i < length a) inds then Inr (map (\<lambda>i. a ! i) inds)
      else Inl (ValueError ''positional indexers are out-of-bounds''))"

text \<open>
  Modelled from the spec: \<open>train_test_split(X, y, test_size, random_state)\<close> of the
  library, the spec's \<open>split(dataset, fraction, seed)\<close>.  The frame \<open>X\<close> and the
  labels \<open>y\<close> are split at the same positions, so one list of records stands for
  both.  The fraction must lie in (0,1); the second subset gets
  \<open>ceil(fraction * n)\<close> records, the first positions of the permutation, and the
  first subset the remaining ones.  The result is (first subset, second subset)
  and the process-wide generator.
\<close>

definition train_test_split ::
  "'g random_impl \<Rightarrow> 'g \<Rightarrow> 'a list \<Rightarrow> real \<Rightarrow> nat option \<Rightarrow> error + (('a list \<times> 'a list) \<times> 'g)" where
  "train_test_split R G arrays test_size random_state =
     (if \<not> (0 < test_size \<and> test_size < 1)
      then Inl (ValueError ''test_size should be between 0.0 and 1.0'')
      else
        let n_samples = length arrays;
            n_test = nat \<lceil>test_size * real n_samples\<rceil>;
            n_train = n_samples - n_test;
            (perm, G') = draw_permutation R G random_state n_samples;
            ind_test = take n_test perm;
            ind_train = take n_train (drop n_test perm)
        in (case safe_indexing arrays ind_train of
              Inl e \<Rightarrow> Inl e
            | Inr train \<Rightarrow>
               (case safe_indexing arrays ind_test of
                  Inl e \<Rightarrow> Inl e
                | Inr test \<Rightarrow> Inr ((train, test), G'))))"

text \<open>What a call returns to the notebook, without the generator state.\<close>

definition returned :: "error + ('r \<times> 'g) \<Rightarrow> error + 'r" where
  "returned r = (case r of Inl e \<Rightarrow> Inl e | Inr (v, G) \<Rightarrow> Inr v)"

text \<open>
  The cells "Create a Hold-Out Data Set for Model Evaluation" and "Create Training
  and Testing Datasets":
  \<^verbatim>\<open>X, X_eval, y, y_eval = train_test_split(X, y, test_size = hold_out_percent, random_state=42)\<close>
  \<^verbatim>\<open>X_train, X_test, y_train, y_test = train_test_split(X, y, test_size=0.2, random_state=42)\<close>
\<close>

record 'a partition =
  X :: "'a list"
  X_eval :: "'a list"
  X_train :: "'a list"
  X_test :: "'a list"

definition partition_cells ::
  "'g random_impl \<Rightarrow> 'g \<Rightarrow> globals \<Rightarrow> 'a list \<Rightarrow> error + ('a partition \<times> 'g)" where
  "partition_cells R G g df =
     (case train_test_split R G df (hold_out_percent g) (Some 42) of
        Inl e \<Rightarrow> Inl e
      | Inr ((X1, X_eval1), G1) \<Rightarrow>
         (case train_test_split R G1 X1 0.2 (Some 42) of
            Inl e \<Rightarrow> Inl e
          | Inr ((X_train1, X_test1), G2) \<Rightarrow>
              Inr (\<lparr>X = X1, X_eval = X_eval1, X_train = X_train1, X_test = X_test1\<rparr>, G2)))"

text \<open>A small generator for concrete runs: the seed rotates the identity permutation.\<close>

definition rotating_rng :: "nat random_impl" where
  "rotating_rng = \<lparr>RandomState = (\<lambda>seed. seed), permutation = (\<lambda>g n. (rotate g [0..<n], Suc g))\<rparr>"

section \<open>K-fold cross-validation\<close>

text \<open>
  Modelled from the spec: the K-fold splitter behind \<open>cross_val_score(..., cv=K)\<close> and
  behind both search procedures, "partition data into K folds, train on K-1, validate
  on the remainder, rotate".  The validation slices are consecutive runs of positions;
  the first \<open>n mod K\<close> slices have one record more than the others.  A fold count
  below 2 or above the number of records fails fast.
\<close>

definition fold_sizes :: "nat \<Rightarrow> nat \<Rightarrow> nat list" where
  "fold_sizes n_samples n_splits =
     map (\<lambda>i. n_samples div n_splits + (if i < n_samples mod n_splits then 1 else 0)) [0..<n_splits]"

fun test_slices :: "nat \<Rightarrow> nat list \<Rightarrow> nat list list" where
  "test_slices current [] = []"
| "test_slices current (fold_size # rest) =
     [current..<current + fold_size] # test_slices (current + fold_size) rest"

definition KFold_split :: "nat \<Rightarrow> nat \<Rightarrow> error + (nat list \<times> nat list) list" where
  "KFold_split n_splits n_samples =
     (if n_splits \<le> 1
      then Inl (ValueError ''k-fold cross-validation requires at least one train/test split'')
      else if n_splits > n_samples
      then Inl (ValueError ''Cannot have number of splits greater than the number of samples'')
      else Inr (map (\<lambda>test. (filter (\<lambda>i. i \<notin> set test) [0..<n_samples], test))
                  (test_slices 0 (fold_sizes n_samples n_splits))))"

text \<open>
  Modelled from the spec: the classifiers and \<open>cross_val_score\<close> of the library.  An
  estimator is known by what a clone of it scores: given hyperparameters, a scoring
  name, the records it is fitted on and the records it is validated on.  One
  fit/evaluate cycle keeps the records of both sides and the score;
  \<open>cross_val_score\<close> runs one cycle per fold and returns the scores in fold order.
\<close>

datatype pval = PInt int | PStr string | PNone

type_synonym params = "(string \<times> pval) list"

type_synonym 'a learner = "string \<Rightarrow> 'a list \<Rightarrow> 'a list \<Rightarrow> real"

type_synonym 'a estimator = "params \<Rightarrow> 'a learner"

record 'a cycle =
  fitted_on :: "'a list"
  validated_on :: "'a list"
  score :: real

definition cv_cycles ::
  "'a learner \<Rightarrow> 'a list \<Rightarrow> string \<Rightarrow> (nat list \<times> nat list) list \<Rightarrow> 'a cycle list" where
  "cv_cycles classifier X0 scoring folds =
     map (\<lambda>(train, test).
            \<lparr>fitted_on = map (\<lambda>i. X0 ! i) train,
             validated_on = map (\<lambda>i. X0 ! i) test,
             score = classifier scoring (map (\<lambda>i. X0 ! i) train) (map (\<lambda>i. X0 ! i) test)\<rparr>)
         folds"

definition cross_val_score ::
  "'a learner \<Rightarrow> 'a list \<Rightarrow> string \<Rightarrow> nat \<Rightarrow> error + 'a cycle list" where
  "cross_val_score classifier X0 scoring cv =
     (case KFold_split cv (length X0) of
        Inl e \<Rightarrow> Inl e
      | Inr folds \<Rightarrow> Inr (cv_cycles classifier X0 scoring folds))"

text \<open>
  \<open>show_cv_classification_report(classifier, X, y, K)\<close> calls \<open>cross_val_score\<close> four
  times, once per metric, and prints each array of scores with its mean and standard
  deviation.  The report keeps the four arrays, each with the cycles behind it.
\<close>

record 'a cv_report =
  accuracy :: "'a cycle list"
  precision :: "'a cycle list"
  recall :: "'a cycle list"
  f1 :: "'a cycle list"

definition show_cv_classification_report ::
  "'a learner \<Rightarrow> 'a list \<Rightarrow> nat \<Rightarrow> error + 'a cv_report" where
  "show_cv_classification_report classifier X0 K =
     (case cross_val_score classifier X0 ''accuracy'' K of
        Inl e \<Rightarrow> Inl e
      | Inr accuracy1 \<Rightarrow>
     (case cross_val_score classifier X0 ''precision_weighted'' K of
        Inl e \<Rightarrow> Inl e
      | Inr precision1 \<Rightarrow>
     (case cross_val_score classifier X0 ''recall_weighted'' K of
        Inl e \<Rightarrow> Inl e
      | Inr recall1 \<Rightarrow>
     (case cross_val_score classifier X0 ''f1_weighted'' K of
        Inl e \<Rightarrow> Inl e
      | Inr f11 \<Rightarrow>
          Inr \<lparr>accuracy = accuracy1, precision = precision1, recall = recall1, f1 = f11\<rparr>))))"

text \<open>Every fit/evaluate cycle one call of the report routine performs, in order.\<close>

definition fit_evaluate_cycles :: "'a cv_report \<Rightarrow> 'a cycle list" where
  "fit_evaluate_cycles r = accuracy r @ precision r @ recall r @ f1 r"

text \<open>
  What K-fold cross-validation of a frame is: \<open>K\<close> cycles whose validation slices,
  one after the other, are the frame; every cycle fits on the records it does not
  validate on, and validates on \<open>n div K\<close> records or one more.
\<close>

definition kfold_cycles :: "'a list \<Rightarrow> nat \<Rightarrow> 'a cycle list \<Rightarrow> bool" where
  "kfold_cycles X0 K cs =
     (length cs = K \<and> concat (map validated_on cs) = X0 \<and>
      list_all (\<lambda>c. mset (fitted_on c) + mset (validated_on c) = mset X0 \<and>
                     (length (validated_on c) = length X0 div K \<or>
                      length (validated_on c) = length X0 div K + 1)) cs)"

text \<open>An estimator for concrete runs: every clone scores 1.\<close>

definition constant_estimator :: "nat estimator" where
  "constant_estimator ps scoring train test = 1"

section \<open>Hyperparameter search\<close>

text \<open>
  Modelled from the spec: the configuration space is a dictionary from hyperparameter
  name to the list of its candidate values, written here with its keys in the sorted
  order in which the library enumerates them; \<open>ParameterGrid\<close> enumerates every
  combination, the last key varying fastest.
\<close>

fun ParameterGrid :: "(string \<times> pval list) list \<Rightarrow> params list" where
  "ParameterGrid [] = [[]]"
| "ParameterGrid ((name, vals) # rest) =
     concat (map (\<lambda>v. map (\<lambda>c. (name, v) # c) (ParameterGrid rest)) vals)"

text \<open>
  What a fitted search object holds: \<open>cv_results\<close>, every candidate tried with the
  cycles of its cross-validation, and the records the best estimator was refitted on.
\<close>

record 'a search =
  cv_results :: "(params \<times> 'a cycle list) list"
  refit_on :: "'a list"

definition mean_test_score :: "'a cycle list \<Rightarrow> real" where
  "mean_test_score cs = sum_list (map score cs) / real (length cs)"

text \<open>The best candidate: the highest mean score, the first enumerated among equals.\<close>

definition best_params :: "'a search \<Rightarrow> params" where
  "best_params s =
     (case cv_results s of
        [] \<Rightarrow> []
      | c # cs \<Rightarrow>
          fst (foldl (\<lambda>best cand.
                        if mean_test_score (snd cand) > mean_test_score (snd best) then cand else best)
                     c cs))"

text \<open>
  Modelled from the spec: the fit shared by both searches.  Every candidate is scored
  by K-fold cross-validation of the records given; an empty configuration space and a
  fold count the records do not allow fail fast.
\<close>

definition search_fit ::
  "'a estimator \<Rightarrow> params list \<Rightarrow> string \<Rightarrow> nat \<Rightarrow> 'a list \<Rightarrow> error + 'a search" where
  "search_fit est candidates scoring cv X0 =
     (if candidates = [] then Inl (ValueError ''empty configuration space'')
      else
        (case KFold_split cv (length X0) of
           Inl e \<Rightarrow> Inl e
         | Inr folds \<Rightarrow>
             Inr \<lparr>cv_results = map (\<lambda>c. (c, cv_cycles (est c) X0 scoring folds)) candidates,
                  refit_on = X0\<rparr>))"

text \<open>Modelled from the spec: exhaustive grid search, \<open>GridSearchCV(...).fit(X, y)\<close>.\<close>

definition GridSearchCV_fit ::
  "'a estimator \<Rightarrow> (string \<times> pval list) list \<Rightarrow> string \<Rightarrow> nat \<Rightarrow> 'a list \<Rightarrow> error + 'a search" where
  "GridSearchCV_fit est param_grid scoring cv X0 =
     (if param_grid = [] then Inl (ValueError ''empty configuration space'')
      else search_fit est (ParameterGrid param_grid) scoring cv X0)"

text \<open>
  Modelled from the spec: randomized search, \<open>RandomizedSearchCV(...).fit(X, y)\<close>.  It
  draws \<open>n_iter\<close> configurations without replacement with a generator made from the
  seed, and evaluates the full space when \<open>n_iter\<close> is not smaller than it.
\<close>

definition sample_without_replacement :: "'g random_impl \<Rightarrow> nat \<Rightarrow> nat \<Rightarrow> nat \<Rightarrow> nat list" where
  "sample_without_replacement R n_population n_samples seed =
     take n_samples (fst (permutation R (RandomState R seed) n_population))"

definition RandomizedSearchCV_fit ::
  "'g random_impl \<Rightarrow> 'a estimator \<Rightarrow> (string \<times> pval list) list \<Rightarrow> nat \<Rightarrow> string \<Rightarrow> nat \<Rightarrow> nat \<Rightarrow>
     'a list \<Rightarrow> error + 'a search" where
  "RandomizedSearchCV_fit R est param_distributions n_iter scoring cv random_state X0 =
     (if param_distributions = [] then Inl (ValueError ''empty configuration space'')
      else
        let param_grid = ParameterGrid param_distributions;
            grid_size = length param_grid
        in if grid_size \<le> n_iter then search_fit est param_grid scoring cv X0
           else
             (case safe_indexing param_grid (sample_without_replacement R grid_size n_iter random_state) of
                Inl e \<Rightarrow> Inl e
              | Inr candidates \<Rightarrow> search_fit est candidates scoring cv X0))"

text \<open>
  The cell "Perform Hyper-Parameter Tuning" of the nearest-neighbour classifier:
  \<^verbatim>\<open>k_range = list(range(2, 26))\<close>
  \<^verbatim>\<open>weight_options = ['uniform','distance']\<close>
  \<^verbatim>\<open>param_grid = dict(n_neighbors=k_range, weights=weight_options)\<close>
  \<^verbatim>\<open>grid = GridSearchCV(knn, param_grid, cv=10, scoring='accuracy', ...)\<close>
  \<^verbatim>\<open>grid.fit(X, y)\<close>
\<close>

definition k_range :: "pval list" where
  "k_range = map (\<lambda>n. PInt (int n)) [2..<26]"

definition weight_options :: "pval list" where
  "weight_options = [PStr ''uniform'', PStr ''distance'']"

definition param_grid :: "(string \<times> pval list) list" where
  "param_grid = [(''n_neighbors'', k_range), (''weights'', weight_options)]"

definition knn_tuning_cell :: "'a estimator \<Rightarrow> 'a list \<Rightarrow> error + 'a search" where
  "knn_tuning_cell knn X0 = GridSearchCV_fit knn param_grid ''accuracy'' 10 X0"

text \<open>
  The cell "Perform Hyper-Parameter Tuning for the Random Forests Classifier":
  \<^verbatim>\<open>estimator_range = list(range(2, 21))\<close>
  \<^verbatim>\<open>criterion_options = ['gini','entropy']\<close>
  \<^verbatim>\<open>max_features_options = [None, 'auto','sqrt','log2']\<close>
  \<^verbatim>\<open>max_depth_range = list(range(2, 21))\<close>
  \<^verbatim>\<open>rand = RandomizedSearchCV(rfc, param_dist, cv=10, scoring='accuracy', n_iter=10, random_state=42, ...)\<close>
  \<^verbatim>\<open>rand.fit(X_train, y_train)\<close>
\<close>

definition estimator_range :: "pval list" where
  "estimator_range = map (\<lambda>n. PInt (int n)) [2..<21]"

definition criterion_options :: "pval list" where
  "criterion_options = [PStr ''gini'', PStr ''entropy'']"

definition max_features_options :: "pval list" where
  "max_features_options = [PNone, PStr ''auto'', PStr ''sqrt'', PStr ''log2'']"

definition max_depth_range :: "pval list" where
  "max_depth_range = map (\<lambda>n. PInt (int n)) [2..<21]"

definition param_dist :: "(string \<times> pval list) list" where
  "param_dist =
     [(''criterion'', criterion_options), (''max_depth'', max_depth_range),
      (''max_features'', max_features_options), (''n_estimators'', estimator_range)]"

definition forest_tuning_cell ::
  "'g random_impl \<Rightarrow> 'a estimator \<Rightarrow> 'a list \<Rightarrow> error + 'a search" where
  "forest_tuning_cell R rfc_estimator X_train0 =
     RandomizedSearchCV_fit R rfc_estimator param_dist 10 ''accuracy'' 10 42 X_train0"

text \<open>
  What a search over the frame \<open>X0\<close> with \<open>cv\<close> folds leaves behind: every candidate
  it tried comes from the space and was scored by K-fold cross-validation of \<open>X0\<close>,
  and the refit used \<open>X0\<close>.
\<close>

definition searched_on :: "(string \<times> pval list) list \<Rightarrow> 'a list \<Rightarrow> nat \<Rightarrow> 'a search \<Rightarrow> bool" where
  "searched_on space X0 cv s =
     (refit_on s = X0 \<and>
      list_all (\<lambda>(c, cycles). c \<in> set (ParameterGrid space) \<and> kfold_cycles X0 cv cycles)
        (cv_results s))"

section \<open>The notebook, cell by cell\<close>

text \<open>
  Which records every fit sees.  A frame is the list of its records; standardising a
  frame changes the values of its records, not which records it holds, so the scaling
  cell does not show here.  The records of one fit/evaluate cycle are those it fits on
  and those it validates on; a report uses the records of each of its cycles, a search
  those of each cycle of each candidate and those of its refit.
\<close>

definition cycle_records :: "'a cycle \<Rightarrow> 'a list" where
  "cycle_records c = fitted_on c @ validated_on c"

definition report_uses :: "'a cv_report \<Rightarrow> 'a list list" where
  "report_uses r = map cycle_records (fit_evaluate_cycles r)"

definition search_uses :: "'a search \<Rightarrow> 'a list list" where
  "search_uses s = concat (map (\<lambda>cr. map cycle_records (snd cr)) (cv_results s)) @ [refit_on s]"

text \<open>
  One run of the notebook: the partition, the records used by every classifier fit,
  search fit and cross-validation fold before the partition cells, after them up to
  the final evaluation, the records of the final evaluation, and the records used by
  the cross-validation report that follows it.
\<close>

record 'a run =
  parts :: "'a partition"
  before_partition :: "'a list list"
  after_partition :: "'a list list"
  evaluated_on :: "'a list"
  after_evaluation :: "'a list list"

text \<open>
  The cells in their order:
  \<^verbatim>\<open>knn = KNeighborsClassifier(); show_cv_classification_report(knn, X, y, 10)\<close>
  \<^verbatim>\<open>grid.fit(X, y)\<close>
  \<^verbatim>\<open>knn = KNeighborsClassifier(n_neighbors = n_neighbors, weights = weights_option)\<close>
  \<^verbatim>\<open>show_cv_classification_report(knn, X, y, 10)\<close>
  \<^verbatim>\<open>X, X_eval, y, y_eval = train_test_split(X, y, test_size = hold_out_percent, random_state=42)\<close>
  \<^verbatim>\<open>X_train, X_test, y_train, y_test = train_test_split(X, y, test_size=0.2, random_state=42)\<close>
  \<^verbatim>\<open>rfc = RandomForestClassifier(random_state=42); rfc.fit(X_train, y_train)\<close>
  \<^verbatim>\<open>rand.fit(X_train, y_train)\<close>
  \<^verbatim>\<open>rfc = RandomForestClassifier(...best parameters...); rfc.fit(X, y)\<close>
  \<^verbatim>\<open>y_pred = rand.predict(X_eval)\<close>
  \<^verbatim>\<open>show_cv_classification_report(rfc, X, y, 10)\<close>
\<close>

definition notebook ::
  "'g random_impl \<Rightarrow> 'g \<Rightarrow> globals \<Rightarrow> 'a estimator \<Rightarrow> 'a estimator \<Rightarrow> 'a list \<Rightarrow> error + 'a run" where
  "notebook R G g knn rfc_estimator df =
     (case show_cv_classification_report (knn []) df 10 of
        Inl e \<Rightarrow> Inl e
      | Inr baseline \<Rightarrow>
     (case knn_tuning_cell knn df of
        Inl e \<Rightarrow> Inl e
      | Inr grid \<Rightarrow>
     (case show_cv_classification_report (knn (best_params grid)) df 10 of
        Inl e \<Rightarrow> Inl e
      | Inr tuned \<Rightarrow>
     (case partition_cells R G g df of
        Inl e \<Rightarrow> Inl e
      | Inr (P, G') \<Rightarrow>
     (case forest_tuning_cell R rfc_estimator (X_train P) of
        Inl e \<Rightarrow> Inl e
      | Inr rand \<Rightarrow>
     (case show_cv_classification_report (rfc_estimator (best_params rand)) (X P) 10 of
        Inl e \<Rightarrow> Inl e
      | Inr final \<Rightarrow>
          Inr \<lparr>parts = P,
               before_partition = report_uses baseline @ search_uses grid @ report_uses tuned,
               after_partition = [X_train P] @ search_uses rand @ [X P],
               evaluated_on = X_eval P,
               after_evaluation = report_uses final\<rparr>))))))"

section \<open>The feature transformer\<close>

text \<open>
  Modelled from the spec: \<open>StandardScaler\<close> of the library, the spec's \<open>fit\<close> and
  \<open>apply\<close> over a TransformState of per-feature mean and standard deviation, on a
  numeric matrix, a non-empty list of rows of equal length.
  \<open>fit\<close> stores the mean and the population variance of every column and the scale,
  the square root of the variance with a zero replaced by one; \<open>transform\<close> centres
  and scales with the stored statistics and raises on a scaler that was never fitted.
  The scaler object \<open>sc\<close> is \<open>None\<close> until its first fit; every method returns the
  object's state after the call.  The fields \<open>sc_mean\<close>, \<open>sc_var\<close> and \<open>sc_scale\<close>
  are the library's attributes of these names without the prefix, with a trailing
  underscore.
\<close>

type_synonym matrix = "real list list"

record scaler =
  sc_mean :: "real list"
  sc_var :: "real list"
  sc_scale :: "real list"

definition column_mean :: "real list \<Rightarrow> real" where
  "column_mean col = sum_list col / real (length col)"

definition column_var :: "real list \<Rightarrow> real" where
  "column_var col = sum_list (map (\<lambda>x. (x - column_mean col)\<^sup>2) col) / real (length col)"

definition handle_zeros_in_scale :: "real \<Rightarrow> real" where
  "handle_zeros_in_scale s = (if s = 0 then 1 else s)"

definition columns :: "matrix \<Rightarrow> real list list" where
  "columns M = map (\<lambda>j. map (\<lambda>row. row ! j) M) [0..<length (hd M)]"

definition fit_params :: "matrix \<Rightarrow> scaler" where
  "fit_params M =
     \<lparr>sc_mean = map column_mean (columns M),
      sc_var = map column_var (columns M),
      sc_scale = map (\<lambda>col. handle_zeros_in_scale (sqrt (column_var col))) (columns M)\<rparr>"

definition fit :: "scaler option \<Rightarrow> matrix \<Rightarrow> error + scaler option" where
  "fit sc M =
     (if M = [] then Inl (ValueError ''Found array with 0 sample(s)'')
      else Inr (Some (fit_params M)))"

definition standardize :: "scaler \<Rightarrow> matrix \<Rightarrow> matrix" where
  "standardize s M =
     map (\<lambda>row. map (\<lambda>(x, m, sd). (x - m) / sd) (zip row (zip (sc_mean s) (sc_scale s)))) M"

definition transform :: "scaler option \<Rightarrow> matrix \<Rightarrow> error + (scaler option \<times> matrix)" where
  "transform sc M =
     (case sc of
        None \<Rightarrow> Inl (NotFittedError ''This StandardScaler instance is not fitted yet'')
      | Some s \<Rightarrow>
          if list_all (\<lambda>row. length row = length (sc_mean s)) M
          then Inr (Some s, standardize s M)
          else Inl (ValueError ''operands could not be broadcast together''))"

definition fit_transform :: "scaler option \<Rightarrow> matrix \<Rightarrow> error + (scaler option \<times> matrix)" where
  "fit_transform sc M =
     (case fit sc M of Inl e \<Rightarrow> Inl e | Inr sc' \<Rightarrow> transform sc' M)"

text \<open>
  The cell "Perform Scalar Normalization of Each Dataset":
  \<^verbatim>\<open>sc = StandardScaler()\<close>
  \<^verbatim>\<open>X_train = sc.fit_transform(X_train)\<close>
  \<^verbatim>\<open>X_test = sc.transform(X_test)\<close>
  \<^verbatim>\<open>X = sc.fit_transform(X)\<close>
  \<^verbatim>\<open>X_eval = sc.transform(X_eval)\<close>
  It returns the final state of \<open>sc\<close> and the four frames as rebound.
\<close>

definition scaling_cell :: "real list partition \<Rightarrow> error + (scaler option \<times> real list partition)" where
  "scaling_cell P =
     (let sc = None in
      case fit_transform sc (X_train P) of
        Inl e \<Rightarrow> Inl e
      | Inr (sc1, X_train') \<Rightarrow>
     (case transform sc1 (X_test P) of
        Inl e \<Rightarrow> Inl e
      | Inr (sc2, X_test') \<Rightarrow>
     (case fit_transform sc2 (X P) of
        Inl e \<Rightarrow> Inl e
      | Inr (sc3, X') \<Rightarrow>
     (case transform sc3 (X_eval P) of
        Inl e \<Rightarrow> Inl e
      | Inr (sc4, X_eval') \<Rightarrow>
          Inr (sc4, \<lparr>X = X', X_eval = X_eval', X_train = X_train', X_test = X_test'\<rparr>)))))"

text \<open>A three-record dataset already partitioned: one hold-out, one test, one train record.\<close>

definition three_records :: "real list partition" where
  "three_records = \<lparr>X = [[1], [5]], X_eval = [[10]], X_train = [[5]], X_test = [[1]]\<rparr>"

section \<open>The exporter\<close>

text \<open>
  The names \<open>export_model\<close> looks up in the notebook's global namespace when it runs:
  the module \<open>pickle\<close>, bound only if some cell imported it, and the variable
  \<open>rfc\<close>.  A file holds nothing yet or the pickle of an object; loading a pickle
  gives the pickled object back.  \<open>os_path_join\<close> is \<open>os.path.join\<close> on POSIX paths.
  Failures of \<open>open\<close> itself (an unwritable directory) are not modelled.
\<close>

record 'm namespace =
  pickle_imported :: bool
  rfc :: "'m option"

datatype 'm file_content = Empty_File | Pickle 'm

type_synonym 'm filesystem = "string \<rightharpoonup> 'm file_content"

definition os_path_join :: "string \<Rightarrow> string \<Rightarrow> string" where
  "os_path_join a b =
     (if b \<noteq> [] \<and> hd b = CHR ''/'' then b
      else if a = [] \<or> last a = CHR ''/'' then a @ b
      else a @ ''/'' @ b)"

text \<open>
  \<^verbatim>\<open>def export_model(model, algorithm_name):\<close>
  \<^verbatim>\<open>    file_name = "Customer_Churn_{0}.pkl".format(algorithm_name)\<close>
  \<^verbatim>\<open>    file_target = open(os.path.join(os.getcwd(), file_name), 'wb')\<close>
  \<^verbatim>\<open>    pickle.dump(rfc, file_target, protocol=pickle.HIGHEST_PROTOCOL)\<close>
  \<^verbatim>\<open>    file_target.close()\<close>
  \<open>open\<close> in mode \<open>'wb'\<close> creates or truncates the file before anything is
  written.  The result is the file system after the call and what the call returned.
\<close>

definition export_model ::
  "'m namespace \<Rightarrow> string \<Rightarrow> 'm filesystem \<Rightarrow> 'm \<Rightarrow> string \<Rightarrow> 'm filesystem \<times> (error + unit)" where
  "export_model ns cwd fs model algorithm_name =
     (let file_name = ''Customer_Churn_'' @ algorithm_name @ ''.pkl'';
          file_target = os_path_join cwd file_name;
          fs1 = fs(file_target \<mapsto> Empty_File)
      in if \<not> pickle_imported ns then (fs1, Inl (NameError ''pickle''))
         else (case rfc ns of
                 None \<Rightarrow> (fs1, Inl (NameError ''rfc''))
               | Some obj \<Rightarrow> (fs1(file_target \<mapsto> Pickle obj), Inr ())))"

text \<open>
  The namespace when the last cell calls \<open>export_model\<close>: no cell of the notebook
  imports \<open>pickle\<close>, and \<open>rfc\<close> is the forest of the cell before.
\<close>

definition notebook_namespace :: "'m \<Rightarrow> 'm namespace" where
  "notebook_namespace forest = \<lparr>pickle_imported = False, rfc = Some forest\<rparr>"

section \<open>Properties of the null accuracy\<close>

lemma sum_list_binary:
  "set xs \<subseteq> {0, 1} \<Longrightarrow> sum_list xs = int (count_list xs (1::int))"
  by (induction xs) auto

text \<open>
  C2: for a non-empty Series of 0/1 labels with positive fraction \<open>p\<close>,
  \<open>null_accuracy_score(labels, 'Binary')\<close> returns \<open>max(p, 1 - p)\<close>.
\<close>

theorem null_accuracy_binary:
  assumes "labels \<noteq> []" and "set labels \<subseteq> {0, 1}"
  shows "null_accuracy_score notebook_globals labels ''Binary'' =
           Inr (Float (max (positive_fraction labels) (1 - positive_fraction labels)))"
proof -
  have m: "mean (astype_int labels) = Float (positive_fraction labels)"
    using assms by (simp add: mean_def astype_int_def positive_fraction_def sum_list_binary)
  show ?thesis
    by (simp add: null_accuracy_score_def null_accuracy_branch_def notebook_globals_def m
        py_max_def max_def)
qed

theorem null_accuracy_binary_witness:
  "[1, 1, 1, 0] \<noteq> ([] :: int list) \<and> set [1, 1, 1, 0 :: int] \<subseteq> {0, 1} \<and>
   null_accuracy_score notebook_globals [1, 1, 1, 0] ''Binary'' = Inr (Float 0.75)"
  using null_accuracy_binary [of "[1, 1, 1, 0]"]
  by (simp add: positive_fraction_def)

text \<open>
  C3: with the valid type \<open>'Multiple'\<close> the function does not return a score: the
  first two conditions both compare with the global \<open>'Binary'\<close>, so the call ends in
  the \<open>else\<close> branch and raises the validation error.
\<close>

theorem null_accuracy_multiple_raises:
  "null_accuracy_score notebook_globals [1, 1, 1, 0] ''Multiple'' =
     Inl (ValueError (bad_input ''Multiple''))"
  by (simp add: null_accuracy_score_def null_accuracy_branch_def notebook_globals_def)

text \<open>
  C4: the \<open>elif\<close> branch is never executed, whatever the labels, the argument and the
  value of the global are, and so the result never depends on what it computes.
\<close>

theorem elif_branch_unreachable:
  "null_accuracy_branch g classification_type \<noteq> ElifBranch \<and>
   null_accuracy_score g labels classification_type =
     (if classification_type = CLASSIFICATION_TYPE g
      then Inr (py_max (mean (astype_int labels)) (py_rsub 1 (mean (astype_int labels))))
      else Inl (ValueError (bad_input classification_type)))"
  by (simp add: null_accuracy_branch_def null_accuracy_score_def)

text \<open>
  With the notebook's globals the validation error is raised for every argument but
  \<open>'Binary'\<close>, the documented \<open>'Multiple'\<close> included.
\<close>

lemma null_accuracy_raises_iff:
  "null_accuracy_score notebook_globals labels classification_type =
     Inl (ValueError (bad_input classification_type)) \<longleftrightarrow> classification_type \<noteq> ''Binary''"
  by (simp add: null_accuracy_score_def null_accuracy_branch_def notebook_globals_def)

section \<open>Properties of the partitioner\<close>

lemma valid_rng_rotating: "valid_rng rotating_rng"
  by (simp add: valid_rng_def rotating_rng_def atLeast0LessThan)

lemma draw_permutation_valid:
  assumes "valid_rng R"
  shows "distinct (fst (draw_permutation R G rs n))"
    and "set (fst (draw_permutation R G rs n)) = {..<n}"
  using assms by (auto simp: valid_rng_def draw_permutation_def split: option.splits)

lemma draw_permutation_length:
  assumes "valid_rng R"
  shows "length (fst (draw_permutation R G rs n)) = n"
proof -
  have "length (fst (draw_permutation R G rs n)) = card (set (fst (draw_permutation R G rs n)))"
    using draw_permutation_valid(1) [OF assms] by (simp add: distinct_card)
  then show ?thesis
    using draw_permutation_valid(2) [OF assms] by simp
qed

lemma safe_indexing_ok:
  "set inds \<subseteq> {..<length a} \<Longrightarrow> safe_indexing a inds = Inr (map (\<lambda>i. a ! i) inds)"
  by (auto simp: safe_indexing_def list_all_iff)

lemma ceiling_fraction_le:
  assumes "0 < f" and "f < 1"
  shows "nat \<lceil>f * real n\<rceil> \<le> n"
proof -
  have "f * real n \<le> 1 * real n"
    using assms by (intro mult_right_mono) simp_all
  then have "f * real n \<le> of_int (int n)"
    by (simp only: mult_1 of_int_of_nat_eq)
  then have "\<lceil>f * real n\<rceil> \<le> int n"
    by (rule ceiling_le)
  then show ?thesis by (simp only: nat_le_iff)
qed

text \<open>What one split returns when the generator is valid and the fraction is in (0,1).\<close>

lemma train_test_split_returns:
  fixes R :: "'g random_impl" and G :: 'g and d :: "'a list" and rs :: "nat option"
  assumes R: "valid_rng R" and f: "0 < f" "f < 1"
  defines "p \<equiv> fst (draw_permutation R G rs (length d))"
  defines "k \<equiv> nat \<lceil>f * real (length d)\<rceil>"
  shows "train_test_split R G d f rs =
           Inr ((map (\<lambda>i. d ! i) (drop k p), map (\<lambda>i. d ! i) (take k p)),
                snd (draw_permutation R G rs (length d)))"
proof -
  have len: "length p = length d"
    unfolding p_def by (rule draw_permutation_length [OF R])
  have sub: "set p = {..<length d}"
    unfolding p_def by (rule draw_permutation_valid(2) [OF R])
  have k: "k \<le> length d"
    unfolding k_def by (rule ceiling_fraction_le [OF f])
  have t1: "take (length d - k) (drop k p) = drop k p"
    using len by simp
  have s1: "safe_indexing d (drop k p) = Inr (map (\<lambda>i. d ! i) (drop k p))"
    using sub set_drop_subset [of k p] by (intro safe_indexing_ok) auto
  have s2: "safe_indexing d (take k p) = Inr (map (\<lambda>i. d ! i) (take k p))"
    using sub set_take_subset [of k p] by (intro safe_indexing_ok) auto
  show ?thesis
    using f t1 s1 s2
    by (simp add: train_test_split_def Let_def case_prod_unfold p_def [symmetric] k_def [symmetric])
qed

lemma map_nth_permutation:
  assumes "distinct p" and "set p = {..<length d}"
  shows "mset (map (\<lambda>i. d ! i) p) = mset d"
proof -
  have "mset p = mset [0..<length d]"
    using assms by (intro set_eq_iff_mset_eq_distinct [THEN iffD1]) (auto simp: atLeast0LessThan)
  then have "mset (map (\<lambda>i. d ! i) p) = mset (map (\<lambda>i. d ! i) [0..<length d])"
    by (metis mset_map)
  then show ?thesis by (simp add: map_nth)
qed

text \<open>One split: the two subsets together are the records of the input, each once.\<close>

lemma train_test_split_mset:
  assumes R: "valid_rng R" and f: "0 < f" "f < 1"
    and res: "train_test_split R G d f rs = Inr ((a, b), G')"
  shows "mset a + mset b = mset d"
    and "length b = nat \<lceil>f * real (length d)\<rceil>"
proof -
  define p where "p = fst (draw_permutation R G rs (length d))"
  define k where "k = nat \<lceil>f * real (length d)\<rceil>"
  have ab: "a = map (\<lambda>i. d ! i) (drop k p)" "b = map (\<lambda>i. d ! i) (take k p)"
    using res train_test_split_returns [OF R f, of G d rs] by (simp_all add: p_def k_def)
  have dp: "distinct p" and sp: "set p = {..<length d}"
    unfolding p_def by (rule draw_permutation_valid [OF R])+
  have "mset a + mset b = mset (map (\<lambda>i. d ! i) (take k p)) + mset (map (\<lambda>i. d ! i) (drop k p))"
    unfolding ab by (simp add: add.commute)
  also have "\<dots> = mset (map (\<lambda>i. d ! i) (take k p @ drop k p))"
    by (simp only: map_append mset_append)
  also have "\<dots> = mset d"
    using map_nth_permutation [OF dp sp] by simp
  finally show "mset a + mset b = mset d" .
  have "length p = length d"
    unfolding p_def by (rule draw_permutation_length [OF R])
  moreover have "k \<le> length d"
    unfolding k_def by (rule ceiling_fraction_le [OF f])
  ultimately show "length b = nat \<lceil>f * real (length d)\<rceil>"
    unfolding ab k_def by simp
qed

lemma mset_split_distinct:
  assumes "mset a + mset b = mset d" and "distinct d"
  shows "distinct a" and "distinct b" and "set a \<inter> set b = {}" and "set a \<union> set b = set d"
    and "length a + length b = length d"
proof -
  have m: "mset (a @ b) = mset d" using assms(1) by simp
  then have "distinct (a @ b)"
    using assms(2) by (metis mset_eq_imp_distinct_iff)
  then show "distinct a" "distinct b" "set a \<inter> set b = {}" by auto
  show "set a \<union> set b = set d"
    using m by (metis mset_eq_setD set_append)
  show "length a + length b = length d"
    using m by (metis length_append mset_eq_length)
qed


lemma train_test_split_seeded:
  "train_test_split R G d f (Some s) =
     (case returned (train_test_split R G2 d f (Some s)) of
        Inl e \<Rightarrow> Inl e
      | Inr p \<Rightarrow> Inr (p, G))"
  by (simp add: train_test_split_def returned_def draw_permutation_def Let_def
      split: sum.splits)

text \<open>
  C7: a split with an integer seed does not depend on the process-wide generator, the
  only thing that differs between two runs on the same dataset, fraction and seed: the
  two runs return the same subsets (or the same error).  The same holds for the two
  partition cells of the notebook together, which yield train, test and hold-out.
\<close>

theorem split_same_seed_same_partition:
  "returned (train_test_split R G1 d f (Some s)) = returned (train_test_split R G2 d f (Some s))
   \<and> returned (partition_cells R G1 g d) = returned (partition_cells R G2 g d)"
proof
  show 1: "returned (train_test_split R G1 d f (Some s)) =
           returned (train_test_split R G2 d f (Some s))"
    by (subst train_test_split_seeded [of R G1 d f s G2])
       (simp add: returned_def split: sum.splits)
  have 2: "partition_cells R G g d =
     (case returned (train_test_split R G2 d (hold_out_percent g) (Some 42)) of
        Inl e \<Rightarrow> Inl e
      | Inr (X1, X_eval1) \<Rightarrow>
         (case returned (train_test_split R G2 X1 0.2 (Some 42)) of
            Inl e \<Rightarrow> Inl e
          | Inr (X_train1, X_test1) \<Rightarrow>
              Inr (\<lparr>X = X1, X_eval = X_eval1, X_train = X_train1, X_test = X_test1\<rparr>, G)))"
    for G
    unfolding partition_cells_def
    by (subst train_test_split_seeded [of R G d _ 42 G2])
       (auto split: sum.splits simp: train_test_split_seeded [of R G _ _ 42 G2])
  show "returned (partition_cells R G1 g d) = returned (partition_cells R G2 g d)"
    by (simp add: 2 [of G1] 2 [of G2] returned_def split: sum.splits prod.splits)
qed

text \<open>
  C8: with a valid generator, distinct records and a hold-out fraction in (0,1), the
  two partition cells return, the sizes of train, test and hold-out add up to the size
  of the dataset, and the three subsets are pairwise disjoint.  For 100 records and the
  hold-out fraction 0.2 the hold-out has 20 records, the train set 64 and the test
  set 16.
\<close>

theorem partition_sizes_and_disjointness:
  assumes R: "valid_rng R" and d: "distinct df"
    and h: "0 < hold_out_percent g" "hold_out_percent g < 1"
  shows "\<exists>P G'. partition_cells R G g df = Inr (P, G') \<and>
           length (X_train P) + length (X_test P) + length (X_eval P) = length df \<and>
           set (X_train P) \<inter> set (X_test P) = {} \<and>
           set (X_train P) \<inter> set (X_eval P) = {} \<and>
           set (X_test P) \<inter> set (X_eval P) = {} \<and>
           set (X_train P) \<union> set (X_test P) \<union> set (X_eval P) = set df \<and>
           (length df = 100 \<and> hold_out_percent g = 0.2 \<longrightarrow>
              length (X_eval P) = 20 \<and> length (X_train P) = 64 \<and> length (X_test P) = 16)"
proof -
  obtain X1 E1 G1 where s1: "train_test_split R G df (hold_out_percent g) (Some 42) = Inr ((X1, E1), G1)"
    using train_test_split_returns [OF R h] by blast
  have m1: "mset X1 + mset E1 = mset df"
    and l1: "length E1 = nat \<lceil>hold_out_percent g * real (length df)\<rceil>"
    using train_test_split_mset [OF R h s1] by simp_all
  have f2: "0 < (0.2::real)" "(0.2::real) < 1" by simp_all
  obtain T1 S1 G2 where s2: "train_test_split R G1 X1 0.2 (Some 42) = Inr ((T1, S1), G2)"
    using train_test_split_returns [OF R f2] by blast
  have m2: "mset T1 + mset S1 = mset X1"
    and l2: "length S1 = nat \<lceil>0.2 * real (length X1)\<rceil>"
    using train_test_split_mset [OF R f2 s2] by simp_all
  define P where "P = \<lparr>X = X1, X_eval = E1, X_train = T1, X_test = S1\<rparr>"
  have res: "partition_cells R G g df = Inr (P, G2)"
    using s1 s2 by (simp add: partition_cells_def P_def)
  note a1 = mset_split_distinct [OF m1 d]
  note a2 = mset_split_distinct [OF m2 a1(1)]
  have sz: "length T1 + length S1 + length E1 = length df"
    using a1(5) a2(5) by simp
  have d1: "set T1 \<inter> set S1 = {}" by (rule a2(3))
  have d2: "set T1 \<inter> set E1 = {}" using a1(3) a2(4) by blast
  have d3: "set S1 \<inter> set E1 = {}" using a1(3) a2(4) by blast
  have un: "set T1 \<union> set S1 \<union> set E1 = set df" using a1(4) a2(4) by simp
  have ex: "length E1 = 20 \<and> length T1 = 64 \<and> length S1 = 16"
    if n: "length df = 100" and p: "hold_out_percent g = 0.2"
  proof -
    have e: "length E1 = 20" using l1 n p by simp
    then have x: "length X1 = 80" using a1(5) n by simp
    have s: "length S1 = 16" using l2 x by simp
    then have "length T1 = 64" using a2(5) x by simp
    with e s show ?thesis by simp
  qed
  show ?thesis
    using res sz d1 d2 d3 un ex by (intro exI [of _ P] exI [of _ G2]) (simp add: P_def)
qed

theorem partition_sizes_and_disjointness_witness:
  "valid_rng rotating_rng \<and> distinct [0..<100] \<and>
   0 < hold_out_percent notebook_globals \<and> hold_out_percent notebook_globals < 1 \<and>
   length [0..<100] = 100 \<and> hold_out_percent notebook_globals = 0.2 \<and>
   (\<exists>P G'. partition_cells rotating_rng 0 notebook_globals [0..<100] = Inr (P, G') \<and>
      length (X_eval P) = 20 \<and> length (X_train P) = 64 \<and> length (X_test P) = 16 \<and>
      set (X_train P) \<inter> set (X_test P) = {} \<and>
      set (X_train P) \<inter> set (X_eval P) = {} \<and>
      set (X_test P) \<inter> set (X_eval P) = {})"
proof -
  have g: "0 < hold_out_percent notebook_globals" "hold_out_percent notebook_globals < 1"
    "hold_out_percent notebook_globals = 0.2"
    by (simp_all add: notebook_globals_def)
  have d: "distinct [0..<100]" by simp
  show ?thesis
    using partition_sizes_and_disjointness [OF valid_rng_rotating d g(1,2), of 0]
      valid_rng_rotating g
    by auto
qed

section \<open>Properties of the feature transformer\<close>

lemma length_fit_params: "length (sc_mean (fit_params M)) = length (hd M)"
  by (simp add: fit_params_def columns_def)

lemma transform_fitted:
  assumes "M \<noteq> []" and "list_all (\<lambda>row. length row = length (hd M)) N"
  shows "transform (Some (fit_params M)) N = Inr (Some (fit_params M), standardize (fit_params M) N)"
  using assms by (simp add: transform_def length_fit_params)

lemma fit_transform_fitted:
  assumes "M \<noteq> []" and "list_all (\<lambda>row. length row = length (hd M)) M"
  shows "fit_transform sc M = Inr (Some (fit_params M), standardize (fit_params M) M)"
  using assms by (simp add: fit_transform_def fit_def transform_fitted)

text \<open>
  C6, as the code has it: \<open>transform\<close> returns the scaler's state as it found it.
  On non-empty frames whose rows all have \<open>w\<close> features the scaling cell returns;
  the scaler is fitted twice, on the training subset and then again on the whole
  train/test remainder \<open>X\<close>, which is the state it is left in; the training and test
  subsets are standardised with the statistics of the training subset, \<open>X\<close> and the
  hold-out subset with the statistics of \<open>X\<close>.  No statistic is computed from the
  hold-out subset.
\<close>

theorem scaling_cell_fits_twice:
  assumes "X_train P \<noteq> []" and "X P \<noteq> []"
    and "list_all (\<lambda>row. length row = w) (X_train P @ X_test P @ X P @ X_eval P)"
  shows "(\<forall>sc M sc' M'. transform sc M = Inr (sc', M') \<longrightarrow> sc' = sc) \<and>
         scaling_cell P =
           Inr (Some (fit_params (X P)),
                \<lparr>X = standardize (fit_params (X P)) (X P),
                 X_eval = standardize (fit_params (X P)) (X_eval P),
                 X_train = standardize (fit_params (X_train P)) (X_train P),
                 X_test = standardize (fit_params (X_train P)) (X_test P)\<rparr>)"
proof
  show "\<forall>sc M sc' M'. transform sc M = Inr (sc', M') \<longrightarrow> sc' = sc"
    by (auto simp: transform_def split: option.splits if_splits)
  have w1: "length (hd (X_train P)) = w"
    using assms(1,3) by (cases "X_train P") simp_all
  have w2: "length (hd (X P)) = w"
    using assms(2,3) by (cases "X P") simp_all
  have a: "fit_transform None (X_train P) =
             Inr (Some (fit_params (X_train P)), standardize (fit_params (X_train P)) (X_train P))"
    using assms by (intro fit_transform_fitted) (simp_all add: w1)
  have b: "transform (Some (fit_params (X_train P))) (X_test P) =
             Inr (Some (fit_params (X_train P)), standardize (fit_params (X_train P)) (X_test P))"
    using assms by (intro transform_fitted) (simp_all add: w1)
  have c: "fit_transform (Some (fit_params (X_train P))) (X P) =
             Inr (Some (fit_params (X P)), standardize (fit_params (X P)) (X P))"
    using assms by (intro fit_transform_fitted) (simp_all add: w2)
  have d: "transform (Some (fit_params (X P))) (X_eval P) =
             Inr (Some (fit_params (X P)), standardize (fit_params (X P)) (X_eval P))"
    using assms by (intro transform_fitted) (simp_all add: w2)
  show "scaling_cell P =
           Inr (Some (fit_params (X P)),
                \<lparr>X = standardize (fit_params (X P)) (X P),
                 X_eval = standardize (fit_params (X P)) (X_eval P),
                 X_train = standardize (fit_params (X_train P)) (X_train P),
                 X_test = standardize (fit_params (X_train P)) (X_test P)\<rparr>)"
    by (simp add: scaling_cell_def a b c d)
qed

lemma fit_params_train: "fit_params [[5]] = \<lparr>sc_mean = [5], sc_var = [0], sc_scale = [1]\<rparr>"
  by (simp add: fit_params_def columns_def column_mean_def column_var_def handle_zeros_in_scale_def)

lemma fit_params_remainder: "fit_params [[1], [5]] = \<lparr>sc_mean = [3], sc_var = [4], sc_scale = [2]\<rparr>"
  by (simp add: fit_params_def columns_def column_mean_def column_var_def handle_zeros_in_scale_def
      power2_eq_square)

theorem scaling_cell_fits_twice_witness:
  "X_train three_records \<noteq> [] \<and> X three_records \<noteq> [] \<and>
   list_all (\<lambda>row. length row = 1)
     (X_train three_records @ X_test three_records @ X three_records @ X_eval three_records) \<and>
   transform (Some (fit_params [[5]])) [[1]] = Inr (Some (fit_params [[5]]), [[- 4]]) \<and>
   scaling_cell three_records =
     Inr (Some \<lparr>sc_mean = [3], sc_var = [4], sc_scale = [2]\<rparr>,
          \<lparr>X = [[- 1], [1]], X_eval = [[7 / 2]], X_train = [[0]], X_test = [[- 4]]\<rparr>)"
proof -
  have h: "X_train three_records \<noteq> []" "X three_records \<noteq> []"
    "list_all (\<lambda>row. length row = 1)
       (X_train three_records @ X_test three_records @ X three_records @ X_eval three_records)"
    by (simp_all add: three_records_def)
  have t: "transform (Some (fit_params [[5]])) [[1]] = Inr (Some (fit_params [[5]]), [[- 4]])"
    by (simp add: transform_def fit_params_train standardize_def)
  show ?thesis
    using scaling_cell_fits_twice [OF h] h t
    by (simp add: three_records_def fit_params_train fit_params_remainder standardize_def)
qed

text \<open>
  C6, as the spec states it, fails on the three-record dataset: after the cell the
  scaler holds the mean 3 of the remainder, not the mean 5 of the training subset,
  and the hold-out value 10 became 7/2, not the 5 that the training statistics give.
\<close>

theorem scaler_not_frozen_counterexample:
  "\<not> (\<forall>sc' P'. scaling_cell three_records = Inr (sc', P') \<longrightarrow>
         sc' = Some (fit_params (X_train three_records)) \<and>
         X_eval P' = standardize (fit_params (X_train three_records)) (X_eval three_records))"
proof -
  have "scaling_cell three_records =
     Inr (Some \<lparr>sc_mean = [3], sc_var = [4], sc_scale = [2]\<rparr>,
          \<lparr>X = [[- 1], [1]], X_eval = [[7 / 2]], X_train = [[0]], X_test = [[- 4]]\<rparr>)"
    by (simp add: scaling_cell_def three_records_def fit_transform_def fit_def transform_def
        fit_params_train fit_params_remainder standardize_def)
  moreover have "fit_params (X_train three_records) = \<lparr>sc_mean = [5], sc_var = [0], sc_scale = [1]\<rparr>"
    by (simp add: three_records_def fit_params_train)
  ultimately show ?thesis by simp
qed

section \<open>Properties of the exporter\<close>

text \<open>
  C10: in the notebook's namespace the call of the last cell creates the file
  \<open>Customer_Churn_RandomForestsClassifier.pkl\<close> in the working directory, leaves it
  empty and raises \<open>NameError\<close>, because \<open>pickle\<close> was never imported.  With
  \<open>pickle\<close> imported, exporting another model than the global \<open>rfc\<close> writes the
  pickle of \<open>rfc\<close>, not of the model passed.
\<close>

theorem export_model_ignores_its_model:
  "export_model (notebook_namespace ''forest'') ''/work'' Map.empty ''forest'' ''RandomForestsClassifier''
     = ([''/work/Customer_Churn_RandomForestsClassifier.pkl'' \<mapsto> Empty_File], Inl (NameError ''pickle''))
   \<and> export_model \<lparr>pickle_imported = True, rfc = Some ''forest''\<rparr> ''/work'' Map.empty ''knn'' ''KNN''
     = ([''/work/Customer_Churn_KNN.pkl'' \<mapsto> Pickle ''forest''], Inr ())"
  by (simp add: export_model_def notebook_namespace_def os_path_join_def)

section \<open>Properties of K-fold cross-validation\<close>


lemma sum_list_fold_sizes_aux:
  "sum_list (map (\<lambda>i. a + (if i < r then 1 else 0)) [0..<k]) = k * a + min r k"
  by (induction k) auto

lemma sum_list_fold_sizes: "0 < k \<Longrightarrow> sum_list (fold_sizes n k) = n"
proof -
  assume k: "0 < k"
  have "n mod k < k" using k by simp
  then have "min (n mod k) k = n mod k" by simp
  then show ?thesis
    by (simp add: fold_sizes_def sum_list_fold_sizes_aux)
qed

lemma length_fold_sizes: "length (fold_sizes n k) = k"
  by (simp add: fold_sizes_def)

lemma set_fold_sizes: "s \<in> set (fold_sizes n k) \<Longrightarrow> s = n div k \<or> s = n div k + 1"
  by (auto simp: fold_sizes_def)

lemma concat_test_slices: "concat (test_slices c sizes) = [c..<c + sum_list sizes]"
proof (induction sizes arbitrary: c)
  case Nil
  then show ?case by simp
next
  case (Cons s sizes)
  have "[c..<c + s] @ [c + s..<c + s + sum_list sizes] = [c..<c + s + sum_list sizes]"
    by (metis le_add1 upt_add_eq_append)
  with Cons show ?case by (simp add: add.assoc)
qed

lemma map_length_test_slices: "map length (test_slices c sizes) = sizes"
  by (induction sizes arbitrary: c) simp_all

lemma length_test_slices: "length (test_slices c sizes) = length sizes"
  by (induction sizes arbitrary: c) simp_all

lemma distinct_test_slice: "t \<in> set (test_slices c sizes) \<Longrightarrow> distinct t"
  by (induction sizes arbitrary: c) auto

text \<open>What the splitter returns for a fold count between 2 and the number of records.\<close>

lemma KFold_split_returns:
  assumes "2 \<le> k" and "k \<le> n"
  shows "KFold_split k n =
           Inr (map (\<lambda>test. (filter (\<lambda>i. i \<notin> set test) [0..<n], test))
                  (test_slices 0 (fold_sizes n k)))"
  using assms by (simp add: KFold_split_def)

lemma KFold_split_raises:
  assumes "k < 2 \<or> n < k"
  shows "\<exists>e. KFold_split k n = Inl e"
  using assms by (auto simp: KFold_split_def)

lemma test_slice_in_range:
  assumes "0 < k" and "t \<in> set (test_slices 0 (fold_sizes n k))"
  shows "set t \<subseteq> {..<n}"
proof -
  have "set t \<subseteq> set (concat (test_slices 0 (fold_sizes n k)))"
    using assms(2) by auto
  also have "\<dots> = {..<n}"
    using assms(1) by (simp add: concat_test_slices sum_list_fold_sizes atLeast0LessThan)
  finally show ?thesis .
qed

lemma fold_mset:
  assumes "distinct t" and "set t \<subseteq> {..<length xs}"
  shows "mset (map (\<lambda>i. xs ! i) (filter (\<lambda>i. i \<notin> set t) [0..<length xs])) + mset (map (\<lambda>i. xs ! i) t)
           = mset xs"
proof -
  let ?c = "filter (\<lambda>i. i \<notin> set t) [0..<length xs]"
  have "distinct (?c @ t)" using assms(1) by auto
  moreover have "set (?c @ t) = {..<length xs}" using assms(2) by auto
  ultimately have "mset (map (\<lambda>i. xs ! i) (?c @ t)) = mset xs"
    by (rule map_nth_permutation)
  then show ?thesis by simp
qed

lemma cv_cycles_kfold:
  assumes k: "2 \<le> K" "K \<le> length xs"
    and folds: "KFold_split K (length xs) = Inr folds"
  shows "kfold_cycles xs K (cv_cycles L xs scoring folds)"
proof -
  let ?n = "length xs"
  let ?sl = "test_slices 0 (fold_sizes ?n K)"
  have K0: "0 < K" using k by simp
  have f: "folds = map (\<lambda>test. (filter (\<lambda>i. i \<notin> set test) [0..<?n], test)) ?sl"
    using folds KFold_split_returns [OF k] by simp
  have len: "length (cv_cycles L xs scoring folds) = K"
    by (simp add: cv_cycles_def f length_test_slices length_fold_sizes)
  have "map validated_on (cv_cycles L xs scoring folds) = map (map (\<lambda>i. xs ! i)) ?sl"
    by (simp add: cv_cycles_def f comp_def)
  then have "concat (map validated_on (cv_cycles L xs scoring folds)) = map (\<lambda>i. xs ! i) (concat ?sl)"
    by (simp add: map_concat)
  also have "\<dots> = xs"
    using K0 by (simp add: concat_test_slices sum_list_fold_sizes map_nth)
  finally have cat: "concat (map validated_on (cv_cycles L xs scoring folds)) = xs" .
  have each: "mset (fitted_on c) + mset (validated_on c) = mset xs \<and>
              (length (validated_on c) = ?n div K \<or> length (validated_on c) = ?n div K + 1)"
    if c: "c \<in> set (cv_cycles L xs scoring folds)" for c
  proof -
    obtain t where t: "t \<in> set ?sl"
      and fc: "fitted_on c = map (\<lambda>i. xs ! i) (filter (\<lambda>i. i \<notin> set t) [0..<?n])"
      and vc: "validated_on c = map (\<lambda>i. xs ! i) t"
      using c by (auto simp: cv_cycles_def f)
    have "length t \<in> set (map length ?sl)" using t by simp
    then have "length t \<in> set (fold_sizes ?n K)" by (simp only: map_length_test_slices)
    then have "length t = ?n div K \<or> length t = ?n div K + 1" by (rule set_fold_sizes)
    moreover have "mset (fitted_on c) + mset (validated_on c) = mset xs"
      unfolding fc vc
      by (rule fold_mset [OF distinct_test_slice [OF t] test_slice_in_range [OF K0 t]])
    ultimately show ?thesis by (simp add: vc)
  qed
  show ?thesis
    unfolding kfold_cycles_def list_all_iff using len cat each by blast
qed

lemma cross_val_score_returns:
  assumes "2 \<le> K" "K \<le> length xs"
  shows "\<exists>cs. cross_val_score L xs scoring K = Inr cs \<and> kfold_cycles xs K cs"
  using cv_cycles_kfold [OF assms] KFold_split_returns [OF assms]
  by (simp add: cross_val_score_def)

lemma cross_val_score_raises:
  assumes "K < 2 \<or> length xs < K"
  shows "\<exists>e. cross_val_score L xs scoring K = Inl e"
  using KFold_split_raises [OF assms] by (auto simp: cross_val_score_def)

lemma show_cv_returns:
  assumes "2 \<le> K" "K \<le> length xs"
  shows "\<exists>r. show_cv_classification_report L xs K = Inr r \<and>
           kfold_cycles xs K (accuracy r) \<and> kfold_cycles xs K (precision r) \<and>
           kfold_cycles xs K (recall r) \<and> kfold_cycles xs K (f1 r)"
proof -
  obtain a where a: "cross_val_score L xs ''accuracy'' K = Inr a" "kfold_cycles xs K a"
    using cross_val_score_returns [OF assms] by blast
  obtain b where b: "cross_val_score L xs ''precision_weighted'' K = Inr b" "kfold_cycles xs K b"
    using cross_val_score_returns [OF assms] by blast
  obtain c where c: "cross_val_score L xs ''recall_weighted'' K = Inr c" "kfold_cycles xs K c"
    using cross_val_score_returns [OF assms] by blast
  obtain d where d: "cross_val_score L xs ''f1_weighted'' K = Inr d" "kfold_cycles xs K d"
    using cross_val_score_returns [OF assms] by blast
  show ?thesis
    using a b c d by (simp add: show_cv_classification_report_def)
qed

lemma show_cv_raises:
  assumes "K < 2 \<or> length xs < K"
  shows "\<exists>e. show_cv_classification_report L xs K = Inl e"
  using cross_val_score_raises [OF assms, of L "''accuracy''"]
  by (auto simp: show_cv_classification_report_def)

text \<open>
  C5, as the code has it: for a fold count \<open>K\<close> between 2 and the number of records
  (the notebook passes 10) the report routine returns after four cross-validation
  passes, one per metric, so after \<open>4 * K\<close> fit/evaluate cycles; in each pass the
  \<open>K\<close> validation slices are non-empty, have \<open>n div K\<close> records or one more, and
  one after the other are the dataset.
\<close>

theorem cv_report_four_passes:
  assumes "2 \<le> K" and "K \<le> length xs"
  shows "\<exists>r. show_cv_classification_report L xs K = Inr r \<and>
           length (fit_evaluate_cycles r) = 4 * K \<and> 0 < length xs div K \<and>
           kfold_cycles xs K (accuracy r) \<and> kfold_cycles xs K (precision r) \<and>
           kfold_cycles xs K (recall r) \<and> kfold_cycles xs K (f1 r)"
proof -
  obtain r where r: "show_cv_classification_report L xs K = Inr r"
    "kfold_cycles xs K (accuracy r)" "kfold_cycles xs K (precision r)"
    "kfold_cycles xs K (recall r)" "kfold_cycles xs K (f1 r)"
    using show_cv_returns [OF assms] by blast
  then have "length (fit_evaluate_cycles r) = 4 * K"
    by (simp add: fit_evaluate_cycles_def kfold_cycles_def)
  moreover have "0 < length xs div K"
    using assms by (simp add: div_greater_zero_iff)
  ultimately show ?thesis using r by blast
qed

theorem cv_report_four_passes_witness:
  "(2::nat) \<le> 10 \<and> 10 \<le> length [0..<25::nat] \<and>
   (\<exists>r. show_cv_classification_report (constant_estimator []) [0..<25] 10 = Inr r \<and>
      length (fit_evaluate_cycles r) = 40 \<and> kfold_cycles [0..<25] 10 (accuracy r))"
  using cv_report_four_passes [of 10 "[0..<25]" "constant_estimator []"]
  by auto

text \<open>
  C5, as the spec states it, fails on 25 records with \<open>K = 10\<close>: the routine
  performs 40 fit/evaluate cycles, not 10.
\<close>

theorem cv_report_ten_cycles_counterexample:
  "\<not> (\<forall>r. show_cv_classification_report (constant_estimator []) [0..<25] 10 = Inr r \<longrightarrow>
         length (fit_evaluate_cycles r) = 10)"
proof -
  obtain r where r: "show_cv_classification_report (constant_estimator []) [0..<25] 10 = Inr r"
    "kfold_cycles [0..<25] 10 (accuracy r)" "kfold_cycles [0..<25] 10 (precision r)"
    "kfold_cycles [0..<25] 10 (recall r)" "kfold_cycles [0..<25] 10 (f1 r)"
    using show_cv_returns [of 10 "[0..<25]" "constant_estimator []"] by auto
  then have "length (fit_evaluate_cycles r) = 40"
    by (simp add: fit_evaluate_cycles_def kfold_cycles_def)
  with r(1) show ?thesis by auto
qed

section \<open>Properties of the hyperparameter search\<close>


lemma length_ParameterGrid:
  "length (ParameterGrid space) = prod_list (map (\<lambda>kv. length (snd kv)) space)"
proof (induction space)
  case Nil
  then show ?case by simp
next
  case (Cons kv space)
  obtain name vals where kv: "kv = (name, vals)" by (cases kv)
  show ?case
    using Cons by (simp add: kv length_concat comp_def sum_list_triv)
qed

lemma length_options:
  "length criterion_options = 2" "length max_depth_range = 19"
  "length max_features_options = 4" "length estimator_range = 19"
  "length k_range = 24" "length weight_options = 2"
  by (simp_all add: criterion_options_def max_depth_range_def max_features_options_def
      estimator_range_def k_range_def weight_options_def)

lemma param_grid_size: "length (ParameterGrid param_grid) = 48"
  unfolding length_ParameterGrid by (simp add: param_grid_def length_options)

lemma param_dist_size: "length (ParameterGrid param_dist) = 2888"
  unfolding length_ParameterGrid by (simp add: param_dist_def length_options)

lemma search_fit_returns:
  assumes c: "candidates \<noteq> []" and k: "2 \<le> cv" "cv \<le> length xs"
  shows "\<exists>s. search_fit est candidates scoring cv xs = Inr s \<and>
           map fst (cv_results s) = candidates \<and> refit_on s = xs \<and>
           list_all (\<lambda>cr. kfold_cycles xs cv (snd cr)) (cv_results s)"
proof -
  obtain folds where f: "KFold_split cv (length xs) = Inr folds"
    using KFold_split_returns [OF k] by simp
  have "kfold_cycles xs cv (cv_cycles (est p) xs scoring folds)" for p
    by (rule cv_cycles_kfold [OF k f])
  then show ?thesis
    using c f by (simp add: search_fit_def comp_def list_all_iff)
qed

lemma search_fit_raises:
  assumes "cv < 2 \<or> length xs < cv"
  shows "\<exists>e. search_fit est candidates scoring cv xs = Inl e"
  using KFold_split_raises [OF assms] by (auto simp: search_fit_def)

lemma sample_without_replacement_valid:
  assumes R: "valid_rng R" and n: "n \<le> N"
  shows "length (sample_without_replacement R N n seed) = n"
    and "distinct (sample_without_replacement R N n seed)"
    and "set (sample_without_replacement R N n seed) \<subseteq> {..<N}"
proof -
  let ?p = "fst (permutation R (RandomState R seed) N)"
  have d: "distinct ?p" and s: "set ?p = {..<N}"
    using R by (simp_all add: valid_rng_def)
  have "length ?p = card (set ?p)" using d by (simp add: distinct_card)
  then have l: "length ?p = N" using s by simp
  show "length (sample_without_replacement R N n seed) = n"
    using l n by (simp add: sample_without_replacement_def)
  show "distinct (sample_without_replacement R N n seed)"
    using d by (simp add: sample_without_replacement_def)
  show "set (sample_without_replacement R N n seed) \<subseteq> {..<N}"
    using s set_take_subset [of n ?p] by (simp add: sample_without_replacement_def)
qed

lemma searched_onI:
  assumes "refit_on s = xs" and "set (map fst (cv_results s)) \<subseteq> set (ParameterGrid space)"
    and "list_all (\<lambda>cr. kfold_cycles xs cv (snd cr)) (cv_results s)"
  shows "searched_on space xs cv s"
  using assms by (auto simp: searched_on_def list_all_iff)

lemma GridSearchCV_fit_returns:
  assumes sp: "space \<noteq> []" "ParameterGrid space \<noteq> []" and k: "2 \<le> cv" "cv \<le> length xs"
  shows "\<exists>s. GridSearchCV_fit est space scoring cv xs = Inr s \<and>
           length (cv_results s) = length (ParameterGrid space) \<and> searched_on space xs cv s"
proof -
  obtain s where s: "search_fit est (ParameterGrid space) scoring cv xs = Inr s"
    "map fst (cv_results s) = ParameterGrid space" "refit_on s = xs"
    "list_all (\<lambda>cr. kfold_cycles xs cv (snd cr)) (cv_results s)"
    using search_fit_returns [OF sp(2) k] by blast
  have "length (cv_results s) = length (ParameterGrid space)"
    using s(2) by (metis length_map)
  moreover have "searched_on space xs cv s"
    using s by (intro searched_onI) simp_all
  ultimately show ?thesis
    using s(1) sp(1) by (simp add: GridSearchCV_fit_def)
qed

lemma RandomizedSearchCV_fit_returns:
  assumes R: "valid_rng R" and n: "0 < n_iter" "n_iter < length (ParameterGrid space)"
    and k: "2 \<le> cv" "cv \<le> length xs"
  shows "\<exists>s. RandomizedSearchCV_fit R est space n_iter scoring cv seed xs = Inr s \<and>
           length (cv_results s) = n_iter \<and> searched_on space xs cv s"
proof -
  let ?grid = "ParameterGrid space"
  let ?idx = "sample_without_replacement R (length ?grid) n_iter seed"
  let ?cands = "map (\<lambda>i. ?grid ! i) ?idx"
  have sp: "space \<noteq> []" using n by (cases space) auto
  have le: "n_iter \<le> length ?grid" using n by simp
  note smp = sample_without_replacement_valid [OF R le, of seed]
  have ix: "safe_indexing ?grid ?idx = Inr ?cands"
    using smp(3) by (intro safe_indexing_ok) auto
  have ne: "?cands \<noteq> []" using smp(1) n(1) by auto
  obtain s where s: "search_fit est ?cands scoring cv xs = Inr s"
    "map fst (cv_results s) = ?cands" "refit_on s = xs"
    "list_all (\<lambda>cr. kfold_cycles xs cv (snd cr)) (cv_results s)"
    using search_fit_returns [OF ne k] by blast
  have len: "length (cv_results s) = n_iter"
    using s(2) smp(1) by (metis length_map)
  have "set ?cands \<subseteq> set ?grid"
    using smp(3) by auto
  then have "searched_on space xs cv s"
    using s by (intro searched_onI) simp_all
  moreover have "RandomizedSearchCV_fit R est space n_iter scoring cv seed xs = Inr s"
    using sp n(2) ix s(1) by (simp add: RandomizedSearchCV_fit_def Let_def)
  ultimately show ?thesis using len by blast
qed



section \<open>Properties of the notebook run\<close>


lemma kfold_cycle_records:
  assumes "kfold_cycles xs K cs" and "c \<in> set cs"
  shows "set (cycle_records c) = set xs"
proof -
  have "mset (fitted_on c) + mset (validated_on c) = mset xs"
    using assms by (auto simp: kfold_cycles_def list_all_iff)
  then have "mset (cycle_records c) = mset xs"
    by (simp add: cycle_records_def)
  then show ?thesis by (rule mset_eq_setD)
qed

lemma report_uses_set:
  assumes "kfold_cycles xs K (accuracy r)" "kfold_cycles xs K (precision r)"
    "kfold_cycles xs K (recall r)" "kfold_cycles xs K (f1 r)"
    and "F \<in> set (report_uses r)"
  shows "set F = set xs"
  using assms kfold_cycle_records [of xs K]
  by (auto simp: report_uses_def fit_evaluate_cycles_def)

lemma report_uses_nonempty:
  assumes "kfold_cycles xs K (accuracy r)" and "0 < K"
  shows "report_uses r \<noteq> []"
  using assms by (auto simp: report_uses_def fit_evaluate_cycles_def kfold_cycles_def)

lemma search_uses_set:
  assumes "searched_on space xs cv s" and "F \<in> set (search_uses s)"
  shows "set F = set xs"
proof -
  have r: "refit_on s = xs"
    and c: "\<And>p cs. (p, cs) \<in> set (cv_results s) \<Longrightarrow> kfold_cycles xs cv cs"
    using assms(1) by (auto simp: searched_on_def list_all_iff)
  from assms(2) consider "F = refit_on s"
    | p cs c where "(p, cs) \<in> set (cv_results s)" "c \<in> set cs" "F = cycle_records c"
    by (auto simp: search_uses_def)
  then show ?thesis
  proof cases
    case 1
    then show ?thesis using r by simp
  next
    case 2
    then show ?thesis using kfold_cycle_records [OF c] by blast
  qed
qed

text \<open>What the two partition cells return, by sizes and contents.\<close>

lemma partition_cells_returns:
  assumes R: "valid_rng R" and h: "0 < hold_out_percent g" "hold_out_percent g < 1"
  shows "\<exists>P G'. partition_cells R G g df = Inr (P, G') \<and>
           mset (X P) + mset (X_eval P) = mset df \<and>
           mset (X_train P) + mset (X_test P) = mset (X P) \<and>
           length (X_eval P) = nat \<lceil>hold_out_percent g * real (length df)\<rceil> \<and>
           length (X_test P) = nat \<lceil>0.2 * real (length (X P))\<rceil>"
proof -
  obtain X1 E1 G1 where s1: "train_test_split R G df (hold_out_percent g) (Some 42) = Inr ((X1, E1), G1)"
    using train_test_split_returns [OF R h] by blast
  have f2: "0 < (0.2::real)" "(0.2::real) < 1" by simp_all
  obtain T1 S1 G2 where s2: "train_test_split R G1 X1 0.2 (Some 42) = Inr ((T1, S1), G2)"
    using train_test_split_returns [OF R f2] by blast
  define P where "P = \<lparr>X = X1, X_eval = E1, X_train = T1, X_test = S1\<rparr>"
  have "partition_cells R G g df = Inr (P, G2)"
    using s1 s2 by (simp add: partition_cells_def P_def)
  then show ?thesis
    using train_test_split_mset [OF R h s1] train_test_split_mset [OF R f2 s2]
    by (intro exI [of _ P] exI [of _ G2]) (simp add: P_def)
qed

lemma partition_cells_fraction:
  assumes "partition_cells R G g df = Inr (P, G')"
  shows "0 < hold_out_percent g \<and> hold_out_percent g < 1"
  using assms by (auto simp: partition_cells_def train_test_split_def split: if_splits)

text \<open>The whole run, when the training subset has the 10 records the searches need.\<close>

lemma notebook_returns:
  assumes R: "valid_rng R" and d: "distinct df"
    and P: "partition_cells R G g df = Inr (P, G')"
    and n: "10 \<le> length (X_train P)"
  obtains run where "notebook R G g knn rfc_estimator df = Inr run"
    and "parts run = P" and "evaluated_on run = X_eval P"
    and "before_partition run \<noteq> []"
    and "\<And>F. F \<in> set (before_partition run) \<Longrightarrow> set F = set df"
    and "\<And>F. F \<in> set (after_partition run) \<Longrightarrow> set F \<subseteq> set (X P)"
    and "\<And>F. F \<in> set (after_evaluation run) \<Longrightarrow> set F = set (X P)"
    and "set (X P) \<inter> set (X_eval P) = {}" and "set (X P) \<union> set (X_eval P) = set df"
proof -
  have h: "0 < hold_out_percent g" "hold_out_percent g < 1"
    using partition_cells_fraction [OF P] by simp_all
  have m: "mset (X P) + mset (X_eval P) = mset df" "mset (X_train P) + mset (X_test P) = mset (X P)"
    using partition_cells_returns [OF R h, of G df] P by auto
  note a1 = mset_split_distinct [OF m(1) d]
  note a2 = mset_split_distinct [OF m(2) a1(1)]
  have nX: "10 \<le> length (X P)" using a2(5) n by simp
  have nd: "10 \<le> length df" using a1(5) nX by simp
  have two: "(2::nat) \<le> 10" by simp
  obtain baseline where b: "show_cv_classification_report (knn []) df 10 = Inr baseline"
    "kfold_cycles df 10 (accuracy baseline)" "kfold_cycles df 10 (precision baseline)"
    "kfold_cycles df 10 (recall baseline)" "kfold_cycles df 10 (f1 baseline)"
    using show_cv_returns [OF two nd] by blast
  have pg1: "param_grid \<noteq> []"
    by (simp add: param_grid_def)
  have "length (ParameterGrid param_grid) \<noteq> 0"
    by (simp add: param_grid_size)
  then have pg2: "ParameterGrid param_grid \<noteq> []"
    by (metis list.size(3))
  note pg = pg1 pg2
  obtain grid where gr: "knn_tuning_cell knn df = Inr grid" "searched_on param_grid df 10 grid"
    unfolding knn_tuning_cell_def using GridSearchCV_fit_returns [OF pg two nd] by blast
  obtain tuned where t: "show_cv_classification_report (knn (best_params grid)) df 10 = Inr tuned"
    "kfold_cycles df 10 (accuracy tuned)" "kfold_cycles df 10 (precision tuned)"
    "kfold_cycles df 10 (recall tuned)" "kfold_cycles df 10 (f1 tuned)"
    using show_cv_returns [OF two nd] by blast
  have ten: "(0::nat) < 10" "10 < length (ParameterGrid param_dist)"
    by (simp_all add: param_dist_size)
  obtain rand where ra: "forest_tuning_cell R rfc_estimator (X_train P) = Inr rand"
    "searched_on param_dist (X_train P) 10 rand"
    unfolding forest_tuning_cell_def
    using RandomizedSearchCV_fit_returns [OF R ten two n] by blast
  obtain final where f: "show_cv_classification_report (rfc_estimator (best_params rand)) (X P) 10 = Inr final"
    "kfold_cycles (X P) 10 (accuracy final)" "kfold_cycles (X P) 10 (precision final)"
    "kfold_cycles (X P) 10 (recall final)" "kfold_cycles (X P) 10 (f1 final)"
    using show_cv_returns [OF two nX] by blast
  define run where "run = \<lparr>parts = P,
               before_partition = report_uses baseline @ search_uses grid @ report_uses tuned,
               after_partition = [X_train P] @ search_uses rand @ [X P],
               evaluated_on = X_eval P,
               after_evaluation = report_uses final\<rparr>"
  have res: "notebook R G g knn rfc_estimator df = Inr run"
    by (simp add: notebook_def b(1) gr(1) t(1) P ra(1) f(1) run_def)
  have sub: "set (X_train P) \<subseteq> set (X P)" using a2(4) by blast
  have before: "set F = set df" if "F \<in> set (before_partition run)" for F
    using that report_uses_set [OF b(2-5)] report_uses_set [OF t(2-5)] search_uses_set [OF gr(2)]
    by (auto simp: run_def)
  have after: "set F \<subseteq> set (X P)" if "F \<in> set (after_partition run)" for F
    using that search_uses_set [OF ra(2)] sub by (auto simp: run_def)
  have later: "set F = set (X P)" if "F \<in> set (after_evaluation run)" for F
    using that report_uses_set [OF f(2-5)] by (auto simp: run_def)
  have ne: "before_partition run \<noteq> []"
    using report_uses_nonempty [OF b(2)] by (simp add: run_def)
  have p: "parts run = P" and ev: "evaluated_on run = X_eval P"
    by (simp_all add: run_def)
  show ?thesis
    by (rule that [OF res p ev ne before after later a1(3) a1(4)])
qed

text \<open>Twenty records with the notebook's fractions: 4 hold-out, 4 test and 12 training records.\<close>

lemma partition_of_twenty:
  "\<exists>P G'. partition_cells rotating_rng 0 notebook_globals [0..<20] = Inr (P, G') \<and>
           length (X_eval P) = 4 \<and> length (X_train P) = 12"
proof -
  have h: "0 < hold_out_percent notebook_globals" "hold_out_percent notebook_globals < 1"
    by (simp_all add: notebook_globals_def)
  obtain P G' where P: "partition_cells rotating_rng 0 notebook_globals [0..<20] = Inr (P, G')"
    and m: "mset (X P) + mset (X_eval P) = mset [0..<20]"
      "mset (X_train P) + mset (X_test P) = mset (X P)"
    and l: "length (X_eval P) = nat \<lceil>hold_out_percent notebook_globals * real (length [0..<20])\<rceil>"
      "length (X_test P) = nat \<lceil>0.2 * real (length (X P))\<rceil>"
    using partition_cells_returns [OF valid_rng_rotating h, of 0 "[0..<20]"] by blast
  have e: "length (X_eval P) = 4"
    using l(1) by (simp add: notebook_globals_def)
  have "length (X P) + length (X_eval P) = length [0..<20]"
    using m(1) by (metis length_append mset_append mset_eq_length)
  then have x: "length (X P) = 16" using e by simp
  have t: "length (X_test P) = 4"
  proof -
    have "\<lceil>0.2 * (16::real)\<rceil> = 4" by (simp add: ceiling_eq_iff)
    then show ?thesis using l(2) x by simp
  qed
  have "length (X_train P) + length (X_test P) = length (X P)"
    using m(2) by (metis length_append mset_append mset_eq_length)
  then have "length (X_train P) = 12" using t x by simp
  with P e show ?thesis by blast
qed

text \<open>With the rotating generator the hold-out subset of the twenty records is 2, 3, 4, 5.\<close>

lemma holdout_of_twenty:
  "\<exists>P G'. partition_cells rotating_rng 0 notebook_globals [0..<20] = Inr (P, G') \<and>
           X_eval P = [2, 3, 4, 5] \<and> length (X_train P) = 12"
proof -
  obtain P G' where P: "partition_cells rotating_rng 0 notebook_globals [0..<20] = Inr (P, G')"
    and n: "length (X_train P) = 12"
    using partition_of_twenty by blast
  have h: "0 < hold_out_percent notebook_globals" "hold_out_percent notebook_globals < 1"
    by (simp_all add: notebook_globals_def)
  have k: "nat \<lceil>hold_out_percent notebook_globals * real (length [0..<20])\<rceil> = 4"
    by (simp add: notebook_globals_def)
  have p: "fst (draw_permutation rotating_rng 0 (Some 42) (length [0..<20])) =
             [2, 3, 4, 5, 6, 7, 8, 9, 10, 11, 12, 13, 14, 15, 16, 17, 18, 19, 0, 1]"
    by (simp add: draw_permutation_def rotating_rng_def rotate_drop_take)
  have "train_test_split rotating_rng 0 [0..<20] (hold_out_percent notebook_globals) (Some 42) =
          Inr ((map (\<lambda>i. [0..<20] ! i) (drop 4 [2, 3, 4, 5, 6, 7, 8, 9, 10, 11, 12, 13, 14, 15, 16, 17, 18, 19, 0, 1]),
                map (\<lambda>i. [0..<20] ! i) (take 4 [2, 3, 4, 5, 6, 7, 8, 9, 10, 11, 12, 13, 14, 15, 16, 17, 18, 19, 0, 1])),
               snd (draw_permutation rotating_rng 0 (Some 42) (length [0..<20])))"
    using train_test_split_returns [OF valid_rng_rotating h, of 0 "[0..<20]" "Some 42"]
    by (simp only: k p)
  then have "\<exists>X1 G1. train_test_split rotating_rng 0 [0..<20] (hold_out_percent notebook_globals) (Some 42) =
          Inr ((X1, [2, 3, 4, 5]), G1)"
    by simp
  then have "X_eval P = [2, 3, 4, 5]"
    using P by (auto simp: partition_cells_def split: sum.splits prod.splits)
  with P n show ?thesis by blast
qed

text \<open>
  The random-forest path sets the hold-out subset apart before it fits anything: when
  the partition cells return and the training subset has the 10 records a 10-fold
  search needs, the notebook runs to its end, and every fit, search and
  cross-validation fold after the partition cells uses records of the train/test
  remainder only, none of the hold-out subset, which is what the final evaluation
  predicts on.
\<close>

lemma forest_path_leaves_holdout_out:
  assumes "valid_rng R" and "distinct df"
    and "partition_cells R G g df = Inr (P, G')" and "10 \<le> length (X_train P)"
  shows "\<exists>run. notebook R G g knn rfc_estimator df = Inr run \<and> parts run = P \<and>
           evaluated_on run = X_eval P \<and>
           (\<forall>F \<in> set (after_partition run). set F \<inter> set (X_eval P) = {}) \<and>
           (\<forall>F \<in> set (after_evaluation run). set F \<inter> set (X_eval P) = {})"
proof -
  obtain run where run: "notebook R G g knn rfc_estimator df = Inr run"
    and p: "parts run = P" and ev: "evaluated_on run = X_eval P"
    and "before_partition run \<noteq> []"
    and "\<And>F. F \<in> set (before_partition run) \<Longrightarrow> set F = set df"
    and after: "\<And>F. F \<in> set (after_partition run) \<Longrightarrow> set F \<subseteq> set (X P)"
    and later: "\<And>F. F \<in> set (after_evaluation run) \<Longrightarrow> set F = set (X P)"
    and dis: "set (X P) \<inter> set (X_eval P) = {}" and "set (X P) \<union> set (X_eval P) = set df"
    by (rule notebook_returns [OF assms, of knn rfc_estimator]) blast
  have a: "set F \<inter> set (X_eval P) = {}" if "F \<in> set (after_partition run)" for F
    using after [OF that] dis by blast
  have b: "set F \<inter> set (X_eval P) = {}" if "F \<in> set (after_evaluation run)" for F
    using later [OF that] dis by simp
  show ?thesis
  proof (intro exI [of _ run] conjI ballI)
    show "notebook R G g knn rfc_estimator df = Inr run" by (rule run)
    show "parts run = P" by (rule p)
    show "evaluated_on run = X_eval P" by (rule ev)
    show "set F \<inter> set (X_eval P) = {}" if "F \<in> set (after_partition run)" for F
      by (rule a [OF that])
    show "set F \<inter> set (X_eval P) = {}" if "F \<in> set (after_evaluation run)" for F
      by (rule b [OF that])
  qed
qed

text \<open>
  C1: on a dataset of 20 records the notebook runs to its end, the hold-out subset
  that the final evaluation predicts on is the records 2, 3, 4 and 5, and every fit and
  cross-validation fold of the cells before the partition cells (the nearest-neighbour
  baseline, its grid search and the tuned nearest-neighbour report) has these four
  records among the records it uses.  So records of the hold-out subset take part in
  fits and in a hyperparameter search that precede the final evaluation.
\<close>

theorem holdout_records_in_knn_fits:
  "\<exists>run. notebook rotating_rng 0 notebook_globals constant_estimator constant_estimator [0..<20]
            = Inr run \<and>
         X_eval (parts run) = [2, 3, 4, 5] \<and> evaluated_on run = [2, 3, 4, 5] \<and>
         before_partition run \<noteq> [] \<and>
         list_all (\<lambda>F. set [2, 3, 4, 5] \<subseteq> set F) (before_partition run)"
proof -
  obtain P G' where P: "partition_cells rotating_rng 0 notebook_globals [0..<20] = Inr (P, G')"
    and e: "X_eval P = [2, 3, 4, 5]" and n: "length (X_train P) = 12"
    using holdout_of_twenty by blast
  have d: "distinct [0..<20]" by simp
  have t: "10 \<le> length (X_train P)" using n by simp
  obtain run where run:
    "notebook rotating_rng 0 notebook_globals constant_estimator constant_estimator [0..<20] = Inr run"
    and p: "parts run = P" and ev: "evaluated_on run = X_eval P"
    and ne: "before_partition run \<noteq> []"
    and before: "\<And>F. F \<in> set (before_partition run) \<Longrightarrow> set F = set [0..<20]"
    and "\<And>F. F \<in> set (after_partition run) \<Longrightarrow> set F \<subseteq> set (X P)"
    and "\<And>F. F \<in> set (after_evaluation run) \<Longrightarrow> set F = set (X P)"
    and "set (X P) \<inter> set (X_eval P) = {}" and "set (X P) \<union> set (X_eval P) = set [0..<20]"
    by (rule notebook_returns [OF valid_rng_rotating d P t, of constant_estimator constant_estimator])
       blast
  have sub: "set [2, 3, 4, 5] \<subseteq> set [0..<20]" by simp
  have "set [2, 3, 4, 5] \<subseteq> set F" if "F \<in> set (before_partition run)" for F
    using before [OF that] sub by (simp only:)
  then have all: "list_all (\<lambda>F. set [2, 3, 4, 5] \<subseteq> set F) (before_partition run)"
    by (simp only: list_all_iff) blast
  show ?thesis
    using run p ev ne all e by (intro exI [of _ run]) (simp only: simp_thms)
qed

end
